theory Spec2Isabelle
  imports Main "HOL-Library.Multiset"
begin

section \<open>The memory game of src/main.js\<close>

text \<open>
  The class \<open>MemoryGame\<close> keeps its state in fields of \<open>this\<close> and in the class lists of
  the card elements of the page; every delayed action is a callback handed to
  \<open>setTimeout\<close>, \<open>setInterval\<close> or \<open>requestAnimationFrame\<close>. The model is a record of the
  fields, a store of card elements addressed by number (closures keep elements of a replaced
  board alive), and the list of callbacks that are still pending, each with the time at
  which it is due.
\<close>

subsection \<open>Constants\<close>

definition ANIMATION_DURATION :: nat where
  "ANIMATION_DURATION = 600"

definition CHECK_MATCH_DELAY :: nat where
  "CHECK_MATCH_DELAY = 1600"

datatype game_state = IDLE | PLAYING | CHECKING | FINISHED


subsection \<open>Data\<close>

text \<open>
  A card element of the page: the text of its front face and the three classes the game
  adds to and removes from its class list.
\<close>

record card_el =
  face :: string
  flipped :: bool
  matched :: bool
  shake_horizontal :: bool

text \<open>The objects \<open>{ symbol, id }\<close> that \<open>shuffleCards\<close> returns.\<close>

record card =
  symbol :: string
  ident :: nat

text \<open>The objects \<open>{ element, symbol }\<close> pushed on \<open>selectedCards\<close>; the element is an address.\<close>

record selected =
  element :: nat
  sel_symbol :: string

text \<open>The record \<open>saveGameStats\<close> appends to local storage (its date is left out).\<close>

record stats =
  level :: string
  stat_turns :: nat
  time :: nat

datatype error = TypeError

text \<open>
  The callbacks of the source, one constructor for each arrow function handed to a timer:
  \<open>CheckMatch\<close> (line 195), \<open>Unlock\<close> (lines 215-218), \<open>Frame\<close> (the animation frame
  of lines 231-237), \<open>MarkMatched\<close> (lines 232-236), \<open>Unflip\<close> (lines 247-251) and
  \<open>Tick\<close> (lines 268-271).
\<close>

datatype task =
    CheckMatch
  | Unlock
  | Frame nat nat
  | MarkMatched nat nat
  | Unflip nat nat
  | Tick

record pending_task =
  due :: nat
  tid :: nat
  what :: task

record game =
  symbols :: "string list"
  selectedCards :: "selected list"
  allowClick :: bool
  timer :: "nat option"
  seconds :: nat
  turns :: nat
  gameState :: game_state
  store :: "card_el list"
  gameBoard :: "nat list"
  levelSelect :: string
  message_shown :: bool
  sounds :: "string list"
  savedStats :: "stats list"
  now :: nat
  next_id :: nat
  pending :: "pending_task list"
  frame_delay :: nat
  uncaught :: "error list"

text \<open>How a call ends: it returns, or it throws and leaves the state it had reached.\<close>

datatype outcome = Returns game | Throws error game

subsection \<open>Timers\<close>

definition setTimeout :: "task \<Rightarrow> nat \<Rightarrow> game \<Rightarrow> game" where
  "setTimeout t delay g =
     g\<lparr>pending := pending g @ [\<lparr>due = now g + delay, tid = next_id g, what = t\<rparr>],
       next_id := next_id g + 1\<rparr>"

definition requestAnimationFrame :: "task \<Rightarrow> game \<Rightarrow> game" where
  "requestAnimationFrame t g = setTimeout t (frame_delay g) g"

definition clearInterval :: "nat option \<Rightarrow> game \<Rightarrow> game" where
  "clearInterval h g =
     (case h of None \<Rightarrow> g
      | Some i \<Rightarrow> g\<lparr>pending := filter (\<lambda>p. tid p \<noteq> i) (pending g)\<rparr>)"

definition play :: "string \<Rightarrow> game \<Rightarrow> game" where
  "play soundName g = g\<lparr>sounds := sounds g @ [soundName]\<rparr>"

subsection \<open>The symbol pool and the constructor\<close>

text \<open>The array literal of lines 71-73, thirty symbols, written in four pieces.\<close>

definition builtin_symbols :: "string list" where
  "builtin_symbols =
     [''1'', ''2'', ''3'', ''4'', ''5'', ''6''] @ [''7'', ''8'', ''9'', ''10'', ''11'', ''12''] @
     [''A'', ''B'', ''C'', ''L'', ''W'', ''X'', ''Y'', ''Z'', ''M'', ''N'', ''O'', ''P'', ''Q''] @
     [''R'', ''S'', ''T'', ''U'', ''V'']"

text \<open>
  The constructor (lines 60-74). A fresh object has no \<open>symbols\<close>, so the pool is always
  the built-in one. The value of the level select and the delay to the next animation
  frame belong to the page and the browser, and are parameters.
\<close>

definition new_MemoryGame :: "string \<Rightarrow> nat \<Rightarrow> game" where
  "new_MemoryGame lvl fd =
     \<lparr>symbols = builtin_symbols, selectedCards = [], allowClick = True, timer = None,
      seconds = 0, turns = 0, gameState = IDLE, store = [], gameBoard = [],
      levelSelect = lvl, message_shown = False, sounds = [], savedStats = [],
      now = 0, next_id = 1, pending = [], frame_delay = fd, uncaught = []\<rparr>"

subsection \<open>getDimensions\<close>

text \<open>
  \<open>dimensions[level] || [4, 4]\<close> (lines 126-135). \<open>dimensions\<close> is an object literal, so
  the lookup also finds the members every object inherits from \<open>Object.prototype\<close>; each
  of them is a function or an object, hence truthy, and is returned in place of the
  fallback.
\<close>

datatype jsvalue = Dims nat nat | Inherited string

definition dimensions :: "(string \<times> nat \<times> nat) list" where
  "dimensions =
     [(''2x2'', 2, 2), (''4x3'', 4, 3), (''4x4'', 4, 4), (''4x5'', 4, 5), (''4x6'', 4, 6)]"

definition Object_prototype :: "string list" where
  "Object_prototype =
     [''constructor'', ''hasOwnProperty'', ''isPrototypeOf'', ''propertyIsEnumerable'',
      ''toLocaleString'', ''toString'', ''valueOf'', ''__proto__'', ''__defineGetter__'',
      ''__defineSetter__'', ''__lookupGetter__'', ''__lookupSetter__'']"

definition getDimensions :: "string \<Rightarrow> jsvalue" where
  "getDimensions lvl =
     (case map_of dimensions lvl of
        Some (rows, cols) \<Rightarrow> Dims rows cols
      | None \<Rightarrow> if lvl \<in> set Object_prototype then Inherited lvl else Dims 4 4)"

subsection \<open>shuffleCards\<close>

text \<open>
  Lines 155-160. \<open>slice(0, totalCards / 2)\<close> truncates its end, and stops at the end of
  the pool. The reordering is \<open>.sort(() => Math.random() - 0.5)\<close>: what the engine's sort
  makes of a comparator that answers at random. It is the parameter \<open>sh\<close>; the board
  is what it returns, numbered in that order.
\<close>

definition shuffleCards :: "(string list \<Rightarrow> string list) \<Rightarrow> nat \<Rightarrow> string list \<Rightarrow> card list" where
  "shuffleCards sh totalCards syms =
     (let halfDeck = take (totalCards div 2) syms;
          shuffled = sh (halfDeck @ halfDeck)
      in map (\<lambda>(s, i). \<lparr>symbol = s, ident = i\<rparr>) (zip shuffled [0 ..< length shuffled]))"

text \<open>
  The sort itself is the engine's, not the repository's. In V8, the engine of Chrome and
  of Node, an array of fewer than 64 elements is sorted as a single run (array-sort.tq):
  \<open>CountAndMakeRun\<close> takes the longest run at the front, asking the comparator about each
  element and the one before it, and reverses the run when it descends;
  \<open>BinaryInsertionSort\<close> then puts every further element in its place by binary search
  and moves the elements in between up by one. The comparator of line 158 ignores its
  arguments, so what the sort does is decided by its answers alone: the coins, \<open>True\<close> for
  a negative number. An answer asked for beyond the coins given counts as not negative.
  No board has more than 60 cards.
\<close>

definition answer :: "bool list \<Rightarrow> bool" where
  "answer bs = (case bs of [] \<Rightarrow> False | b # _ \<Rightarrow> b)"

text \<open>
  The loop of \<open>CountAndMakeRun\<close>: the run goes on while the answers agree with the first
  one; the answer that ends it is used up too.
\<close>

fun extend_run :: "bool \<Rightarrow> nat \<Rightarrow> bool list \<Rightarrow> nat \<times> bool list" where
  "extend_run isDescending 0 bs = (0, bs)"
| "extend_run isDescending (Suc m) bs =
     (if answer bs = isDescending
      then (case extend_run isDescending m (tl bs) of (k, bs') \<Rightarrow> (Suc k, bs'))
      else (0, tl bs))"

definition CountAndMakeRun :: "'a list \<Rightarrow> bool list \<Rightarrow> nat \<times> 'a list \<times> bool list" where
  "CountAndMakeRun a bs =
     (let isDescending = answer bs in
      case extend_run isDescending (length a - 2) (tl bs) of
        (k, bs') \<Rightarrow>
          (let runLength = 2 + k in
           (runLength,
            (if isDescending then rev (take runLength a) @ drop runLength a else a),
            bs')))"

text \<open>The binary search of \<open>BinaryInsertionSort\<close>: a negative answer keeps the left half.\<close>

function binary_search :: "nat \<Rightarrow> nat \<Rightarrow> bool list \<Rightarrow> nat \<times> bool list" where
  "binary_search left right bs =
     (if left < right
      then (let mid = left + (right - left) div 2 in
            if answer bs then binary_search left mid (tl bs)
            else binary_search (mid + 1) right (tl bs))
      else (left, bs))"
  by pat_completeness auto
termination
  by (relation "measure (\<lambda>(left, right, bs). right - left)") auto

declare binary_search.simps [simp del]

text \<open>The element at \<open>start\<close> goes to \<open>left\<close>; those from \<open>left\<close> to \<open>start\<close> move up.\<close>

definition move :: "nat \<Rightarrow> nat \<Rightarrow> 'a list \<Rightarrow> 'a list" where
  "move start left a =
     take left a @ a ! start # drop left (take start a) @ drop (Suc start) a"

text \<open>The first argument counts the elements that are still to be inserted.\<close>

fun BinaryInsertionSort :: "nat \<Rightarrow> nat \<Rightarrow> 'a list \<Rightarrow> bool list \<Rightarrow> 'a list" where
  "BinaryInsertionSort 0 start a bs = a"
| "BinaryInsertionSort (Suc m) start a bs =
     (case binary_search 0 start bs of
        (left, bs') \<Rightarrow> BinaryInsertionSort m (Suc start) (move start left a) bs')"

definition v8_sort :: "bool list \<Rightarrow> 'a list \<Rightarrow> 'a list" where
  "v8_sort bs a =
     (if length a < 2 then a
      else case CountAndMakeRun a bs of
             (runLength, a', bs') \<Rightarrow>
               BinaryInsertionSort (length a - runLength) runLength a' bs')"

text \<open>All sequences of \<open>k\<close> coins, each as likely as any other when the coins are fair.\<close>

definition coins :: "nat \<Rightarrow> bool list list" where
  "coins k = List.n_lists k [False, True]"

subsection \<open>createCard and createGameBoard\<close>

text \<open>Lines 162-173: a new element, appended to the board.\<close>

definition createCard :: "card \<Rightarrow> game \<Rightarrow> game" where
  "createCard c g =
     g\<lparr>store := store g @ [\<lparr>face = symbol c, flipped = False, matched = False,
                             shake_horizontal = False\<rparr>],
       gameBoard := gameBoard g @ [length (store g)]\<rparr>"

text \<open>
  Lines 142-153. The board is emptied first; destructuring a value that is not iterable
  throws.
\<close>

definition createGameBoard :: "(string list \<Rightarrow> string list) \<Rightarrow> game \<Rightarrow> outcome" where
  "createGameBoard sh g =
     (let g1 = g\<lparr>gameBoard := []\<rparr> in
      case getDimensions (levelSelect g1) of
        Inherited _ \<Rightarrow> Throws TypeError g1
      | Dims rows cols \<Rightarrow>
          (let totalCards = rows * cols;
               gameCards = shuffleCards sh totalCards (symbols g1)
           in Returns (foldl (\<lambda>s c. createCard c s) g1 gameCards)))"

subsection \<open>Turns, timer, end of the game\<close>

definition updateTurns :: "game \<Rightarrow> game" where
  "updateTurns g = g\<lparr>turns := turns g + 1\<rparr>"

text \<open>Lines 263-272. The interval keeps its identifier each time it is put back.\<close>

definition startTimer :: "game \<Rightarrow> game" where
  "startTimer g =
     (let g1 = (clearInterval (timer g) g)\<lparr>seconds := 0\<rparr> in
      g1\<lparr>pending := pending g1 @ [\<lparr>due = now g1 + 1000, tid = next_id g1, what = Tick\<rparr>],
         timer := Some (next_id g1),
         next_id := next_id g1 + 1\<rparr>)"

definition saveGameStats :: "game \<Rightarrow> game" where
  "saveGameStats g =
     g\<lparr>savedStats := savedStats g @
          [\<lparr>level = levelSelect g, stat_turns = turns g, time = seconds g\<rparr>]\<rparr>"

definition finishGame :: "game \<Rightarrow> game" where
  "finishGame g =
     (saveGameStats (play ''win'' (clearInterval (timer g) g)))\<lparr>message_shown := True\<rparr>"

definition remainingCards :: "game \<Rightarrow> nat list" where
  "remainingCards g = filter (\<lambda>a. \<not> matched (store g ! a)) (gameBoard g)"

text \<open>
  The class body defines \<open>checkGameOver\<close> twice. The first definition (lines 292-300) is
  replaced by the second (lines 333-340), which is the method every call reaches.
\<close>

definition checkGameOver_first :: "game \<Rightarrow> game" where
  "checkGameOver_first g =
     (if length (remainingCards g) = 0
      then finishGame (g\<lparr>gameState := FINISHED\<rparr>)
      else g)"

definition checkGameOver :: "game \<Rightarrow> game" where
  "checkGameOver g =
     (if length (remainingCards g) = 0
      then (play ''win'' (clearInterval (timer g) g))\<lparr>message_shown := True\<rparr>
      else g)"

subsection \<open>Clicks and resolution\<close>

definition add_flipped :: "nat \<Rightarrow> game \<Rightarrow> game" where
  "add_flipped a g = g\<lparr>store := (store g)[a := (store g ! a)\<lparr>flipped := True\<rparr>]\<rparr>"

text \<open>Lines 182-197.\<close>

definition handleCardClick :: "nat \<Rightarrow> string \<Rightarrow> game \<Rightarrow> game" where
  "handleCardClick cardElement symbol' g =
     (if \<not> allowClick g \<or> flipped (store g ! cardElement) \<or> matched (store g ! cardElement)
      then g
      else
        (let g1 = (add_flipped cardElement g)
                    \<lparr>selectedCards := selectedCards g @
                       [\<lparr>element = cardElement, sel_symbol = symbol'\<rparr>]\<rparr>
         in if length (selectedCards g1) = 2
            then setTimeout CheckMatch ANIMATION_DURATION (updateTurns (g1\<lparr>allowClick := False\<rparr>))
            else g1))"

text \<open>Lines 227-238.\<close>

definition handleMatch :: "selected \<Rightarrow> selected \<Rightarrow> game \<Rightarrow> game" where
  "handleMatch card1 card2 g =
     requestAnimationFrame (Frame (element card1) (element card2))
       (play ''match'' (g\<lparr>gameState := CHECKING\<rparr>))"

definition add_shake :: "nat \<Rightarrow> game \<Rightarrow> game" where
  "add_shake a g = g\<lparr>store := (store g)[a := (store g ! a)\<lparr>shake_horizontal := True\<rparr>]\<rparr>"

text \<open>Lines 240-252.\<close>

definition handleMismatch :: "selected \<Rightarrow> selected \<Rightarrow> game \<Rightarrow> game" where
  "handleMismatch card1 card2 g =
     setTimeout (Unflip (element card1) (element card2)) (ANIMATION_DURATION * 2)
       (play ''fail'' (add_shake (element card2) (add_shake (element card1) g)))"

text \<open>
  Lines 204-219. With fewer than two selected cards \<open>card1\<close> or \<open>card2\<close> is undefined
  and reading its \<open>symbol\<close> throws, before anything is changed.
\<close>

definition checkMatch :: "game \<Rightarrow> outcome" where
  "checkMatch g =
     (case selectedCards g of
        card1 # card2 # _ \<Rightarrow>
          (let g1 = (if sel_symbol card1 = sel_symbol card2
                     then handleMatch card1 card2 g
                     else handleMismatch card1 card2 g)
           in Returns (setTimeout Unlock CHECK_MATCH_DELAY (g1\<lparr>selectedCards := []\<rparr>)))
      | _ \<Rightarrow> Throws TypeError g)"

subsection \<open>startGame\<close>

text \<open>Lines 357-374. An exception of \<open>createGameBoard\<close> leaves the timer as it was.\<close>

definition startGame :: "(string list \<Rightarrow> string list) \<Rightarrow> game \<Rightarrow> outcome" where
  "startGame sh g =
     (let g1 = g\<lparr>message_shown := False, selectedCards := [], allowClick := True, turns := 0\<rparr>
      in case createGameBoard sh g1 of
           Throws e g2 \<Rightarrow> Throws e g2
         | Returns g2 \<Rightarrow> Returns (startTimer g2))"

subsection \<open>The callbacks\<close>

definition add_matched :: "nat \<Rightarrow> game \<Rightarrow> game" where
  "add_matched a g = g\<lparr>store := (store g)[a := (store g ! a)\<lparr>matched := True\<rparr>]\<rparr>"

definition remove_flipped_shake :: "nat \<Rightarrow> game \<Rightarrow> game" where
  "remove_flipped_shake a g =
     g\<lparr>store := (store g)[a := (store g ! a)\<lparr>flipped := False, shake_horizontal := False\<rparr>]\<rparr>"

fun run_task :: "task \<Rightarrow> game \<Rightarrow> outcome" where
  "run_task CheckMatch g = checkMatch g"
| "run_task Unlock g = Returns (checkGameOver (g\<lparr>allowClick := True\<rparr>))"
| "run_task (Frame e1 e2) g = Returns (setTimeout (MarkMatched e1 e2) ANIMATION_DURATION g)"
| "run_task (MarkMatched e1 e2) g =
     Returns ((add_matched e2 (add_matched e1 g))\<lparr>gameState := PLAYING\<rparr>)"
| "run_task (Unflip e1 e2) g = Returns (remove_flipped_shake e2 (remove_flipped_shake e1 g))"
| "run_task Tick g = Returns (g\<lparr>seconds := seconds g + 1\<rparr>)"

text \<open>An exception that reaches the event loop is reported and the page goes on.\<close>

definition settle :: "outcome \<Rightarrow> game" where
  "settle r = (case r of Returns g \<Rightarrow> g | Throws e g \<Rightarrow> g\<lparr>uncaught := uncaught g @ [e]\<rparr>)"

subsection \<open>The event loop\<close>

text \<open>
  The first pending callback among those that are due earliest; callbacks due at the
  same time run in the order in which they were registered.
\<close>

fun earliest :: "pending_task list \<Rightarrow> pending_task option" where
  "earliest [] = None"
| "earliest (p # ps) =
     (case earliest ps of
        None \<Rightarrow> Some p
      | Some q \<Rightarrow> if due q < due p then Some q else Some p)"

fun remove_first :: "nat \<Rightarrow> pending_task list \<Rightarrow> pending_task list" where
  "remove_first i [] = []"
| "remove_first i (p # ps) = (if tid p = i then ps else p # remove_first i ps)"

text \<open>
  The next callback runs: the clock moves to its due time, a timeout leaves the list, the
  interval is put back one second later.
\<close>

definition fire :: "game \<Rightarrow> game" where
  "fire g =
     (case earliest (pending g) of
        None \<Rightarrow> g
      | Some p \<Rightarrow>
          (let rest = remove_first (tid p) (pending g);
               g1 = g\<lparr>now := max (now g) (due p),
                      pending := (if what p = Tick then rest @ [p\<lparr>due := due p + 1000\<rparr>] else rest)\<rparr>
           in settle (run_task (what p) g1)))"

text \<open>
  What can happen to the page: a click on the \<open>i\<close>-th card of the board, the level select
  changing (which starts a game, as the button of the message does), time passing with no
  callback becoming due, and the next callback running.
\<close>

datatype event =
    Click nat
  | Start string "string list \<Rightarrow> string list"
  | Delay nat
  | Timer

fun step :: "game \<Rightarrow> event \<Rightarrow> game" where
  "step g (Click i) =
     (if i < length (gameBoard g)
      then handleCardClick (gameBoard g ! i) (face (store g ! (gameBoard g ! i))) g
      else g)"
| "step g (Start lvl sh) = settle (startGame sh (g\<lparr>levelSelect := lvl\<rparr>))"
| "step g (Delay ms) =
     (case earliest (pending g) of
        None \<Rightarrow> g\<lparr>now := now g + ms\<rparr>
      | Some p \<Rightarrow> g\<lparr>now := max (now g) (min (now g + ms) (due p))\<rparr>)"
| "step g Timer = fire g"

definition run :: "game \<Rightarrow> event list \<Rightarrow> game" where
  "run g evs = foldl step g evs"

subsection \<open>Concrete runs\<close>

text \<open>
  A page whose level select shows \<open>2x2\<close> and whose next frame comes after 16 ms, and the
  shuffle in which the sort leaves the deck as it is: the board reads 1, 2, 1, 2.
\<close>

definition page :: game where
  "page = new_MemoryGame ''2x2'' 16"

definition in_order :: "string list \<Rightarrow> string list" where
  "in_order xs = xs"

definition started :: game where
  "started = step page (Start ''2x2'' in_order)"

text \<open>
  A whole game: both pairs are found one after the other, and every callback runs when it
  is due.
\<close>

definition winning_run :: "event list" where
  "winning_run =
     [Click 0, Click 2, Timer, Timer, Timer, Timer, Timer, Timer,
      Click 1, Click 3, Timer, Timer, Timer, Timer, Timer, Timer]"


text \<open>
  A game is started again 600 ms into a mismatch, right after \<open>checkMatch\<close>, and in the
  new game two cards are turned at 2100 ms. The unlocking callback of the old game is
  still pending then; it is due at 2200 ms.
\<close>

definition restart_run :: "event list" where
  "restart_run =
     [Click 0, Click 1, Timer, Start ''2x2'' in_order, Timer, Timer, Delay 300,
      Click 0, Click 1]"

text \<open>
  The same with a change of level, which is how the select starts a game: the page shows
  a 4x3 board (1 to 6 twice), and 600 ms into a mismatch the level becomes 2x2.
\<close>

definition started_4x3 :: game where
  "started_4x3 = step (new_MemoryGame ''4x3'' 16) (Start ''4x3'' in_order)"

definition level_change_run :: "event list" where
  "level_change_run =
     [Click 0, Click 1, Timer, Start ''2x2'' in_order, Timer, Timer, Delay 300,
      Click 0, Click 1]"

subsection \<open>Runs of the page and the state of the input lock\<close>

text \<open>How many callbacks of one kind are pending.\<close>

definition awaiting :: "task \<Rightarrow> game \<Rightarrow> nat" where
  "awaiting t g = length (filter (\<lambda>p. what p = t) (pending g))"

text \<open>No resolution is under way: neither \<open>checkMatch\<close> nor its unlocking callback is pending.\<close>

definition quiet :: "game \<Rightarrow> bool" where
  "quiet g = (awaiting CheckMatch g = 0 \<and> awaiting Unlock g = 0)"

text \<open>A sequence of events in which a game is only started while no resolution is under way.\<close>

fun calm :: "game \<Rightarrow> event list \<Rightarrow> bool" where
  "calm g [] = True"
| "calm g (Start lvl sh # evs) = (quiet g \<and> calm (step g (Start lvl sh)) evs)"
| "calm g (Click i # evs) = calm (step g (Click i)) evs"
| "calm g (Delay ms # evs) = calm (step g (Delay ms)) evs"
| "calm g (Timer # evs) = calm (step g Timer) evs"

text \<open>
  The three situations of the lock: open, with at most one card selected; closed between
  the second flip and \<open>checkMatch\<close>; closed between \<open>checkMatch\<close> and the unlocking
  callback.
\<close>

definition open_lock :: "game \<Rightarrow> bool" where
  "open_lock g = (allowClick g \<and> length (selectedCards g) \<le> 1 \<and> quiet g)"

definition pair_selected :: "game \<Rightarrow> bool" where
  "pair_selected g =
     (\<not> allowClick g \<and> length (selectedCards g) = 2 \<and>
      awaiting CheckMatch g = 1 \<and> awaiting Unlock g = 0)"

definition resolving :: "game \<Rightarrow> bool" where
  "resolving g =
     (\<not> allowClick g \<and> selectedCards g = [] \<and>
      awaiting CheckMatch g = 0 \<and> awaiting Unlock g = 1)"

definition fresh_ids :: "game \<Rightarrow> bool" where
  "fresh_ids g = (distinct (map tid (pending g)) \<and> list_all (\<lambda>p. tid p < next_id g) (pending g))"

definition lock_inv :: "game \<Rightarrow> bool" where
  "lock_inv g = ((open_lock g \<or> pair_selected g \<or> resolving g) \<and> fresh_ids g)"

section \<open>Facts about the model\<close>

subsection \<open>The deck\<close>

lemma symbols_shuffleCards:
  "map symbol (shuffleCards sh n syms) = sh (take (n div 2) syms @ take (n div 2) syms)"
proof -
  have "map (symbol \<circ> (\<lambda>(s, i). \<lparr>symbol = s, ident = i\<rparr>)) (zip xs [0 ..< length xs]) = xs"
    for xs :: "string list"
  proof -
    have "symbol \<circ> (\<lambda>(s, i). \<lparr>symbol = s, ident = i\<rparr>) = fst"
      by (auto simp: fun_eq_iff)
    then show ?thesis by simp
  qed
  then show ?thesis by (simp add: shuffleCards_def Let_def)
qed

lemma idents_shuffleCards:
  "map ident (shuffleCards sh n syms) =
     [0 ..< length (sh (take (n div 2) syms @ take (n div 2) syms))]"
proof -
  have "map (ident \<circ> (\<lambda>(s, i). \<lparr>symbol = s, ident = i\<rparr>)) (zip xs [0 ..< length xs])
          = [0 ..< length xs]"
    for xs :: "string list"
  proof -
    have "ident \<circ> (\<lambda>(s, i). \<lparr>symbol = s, ident = i\<rparr>) = snd"
      by (auto simp: fun_eq_iff)
    then show ?thesis by simp
  qed
  then show ?thesis by (simp add: shuffleCards_def Let_def)
qed

lemma length_shuffleCards:
  "length (shuffleCards sh n syms) = length (sh (take (n div 2) syms @ take (n div 2) syms))"
  by (simp add: shuffleCards_def Let_def)

lemma extend_run_le: "fst (extend_run d m bs) \<le> m"
proof (induction m arbitrary: bs)
  case 0
  then show ?case by simp
next
  case (Suc m)
  obtain k cs where e: "extend_run d m (tl bs) = (k, cs)"
    by (cases "extend_run d m (tl bs)")
  then have "k \<le> m"
    using Suc [of "tl bs"] by simp
  with e show ?case by simp
qed

lemma CountAndMakeRun_props:
  assumes "2 \<le> length a" "CountAndMakeRun a bs = (r, a', bs')"
  shows "r \<le> length a \<and> 2 \<le> r \<and> mset a' = mset a \<and> length a' = length a"
proof -
  obtain k cs where e: "extend_run (answer bs) (length a - 2) (tl bs) = (k, cs)"
    by (cases "extend_run (answer bs) (length a - 2) (tl bs)")
  have "k \<le> length a - 2"
    using extend_run_le [of "answer bs" "length a - 2" "tl bs"] e by simp
  moreover have "r = 2 + k" "a' = (if answer bs then rev (take r a) @ drop r a else a)"
    using assms(2) e by (auto simp: CountAndMakeRun_def Let_def)
  moreover have "mset (rev (take r a) @ drop r a) = mset a"
    by (metis append_take_drop_id mset_append mset_rev)
  ultimately show ?thesis using assms(1) by auto
qed

lemma binary_search_bounds:
  "left \<le> right \<Longrightarrow>
     left \<le> fst (binary_search left right bs) \<and> fst (binary_search left right bs) \<le> right"
proof (induction left right bs rule: binary_search.induct)
  case (1 left right bs)
  show ?case
  proof (cases "left < right")
    case False
    then show ?thesis using 1 by (simp add: binary_search.simps)
  next
    case True
    let ?mid = "left + (right - left) div 2"
    have m: "left \<le> ?mid" "?mid < right" using True by auto
    show ?thesis
    proof (cases "answer bs")
      case True
      then have "binary_search left right bs = binary_search left ?mid (tl bs)"
        using \<open>left < right\<close> by (subst binary_search.simps) (simp add: Let_def)
      moreover have "left \<le> fst (binary_search left ?mid (tl bs)) \<and>
          fst (binary_search left ?mid (tl bs)) \<le> ?mid"
        using "1.IH"(1) [OF \<open>left < right\<close> refl True] m by simp
      ultimately show ?thesis using m by simp
    next
      case False
      then have "binary_search left right bs = binary_search (?mid + 1) right (tl bs)"
        using \<open>left < right\<close> by (subst binary_search.simps) (simp add: Let_def)
      moreover have "?mid + 1 \<le> fst (binary_search (?mid + 1) right (tl bs)) \<and>
          fst (binary_search (?mid + 1) right (tl bs)) \<le> right"
        using "1.IH"(2) [OF \<open>left < right\<close> refl False] m by simp
      ultimately show ?thesis using m by simp
    qed
  qed
qed

lemma move_props:
  assumes "start < length a" "left \<le> start"
  shows "mset (move start left a) = mset a \<and> length (move start left a) = length a"
proof -
  have "take left a @ drop left (take start a) = take start a"
    using assms(2) by (metis append_take_drop_id min.absorb1 take_take)
  then have "mset (take left a) + mset (drop left (take start a)) = mset (take start a)"
    by (metis mset_append)
  moreover have "a = take start a @ a ! start # drop (Suc start) a"
    using assms(1) by (rule id_take_nth_drop)
  then have "mset a = mset (take start a) + {#a ! start#} + mset (drop (Suc start) a)"
    by (metis mset.simps(2) mset_append add_mset_add_single union_assoc union_commute)
  ultimately have "mset (move start left a) = mset a"
    by (simp add: move_def)
  moreover have "length (move start left a) = length a"
    using assms by (simp add: move_def)
  ultimately show ?thesis by simp
qed

lemma BinaryInsertionSort_mset:
  "start + m = length a \<Longrightarrow> mset (BinaryInsertionSort m start a bs) = mset a"
proof (induction m arbitrary: start a bs)
  case 0
  then show ?case by simp
next
  case (Suc m)
  obtain left bs' where s: "binary_search 0 start bs = (left, bs')"
    by (cases "binary_search 0 start bs")
  have "left \<le> start"
    using binary_search_bounds [of 0 start bs] s by simp
  moreover have "start < length a" using Suc.prems by simp
  ultimately have mv: "mset (move start left a) = mset a" "length (move start left a) = length a"
    using move_props [of start a left] by simp_all
  have "mset (BinaryInsertionSort m (Suc start) (move start left a) bs') = mset (move start left a)"
    using Suc.prems mv(2) by (intro Suc.IH) simp
  then show ?case using s mv(1) by simp
qed

lemma mset_v8_sort: "mset (v8_sort bs a) = mset a"
proof (cases "length a < 2")
  case True
  then show ?thesis by (simp add: v8_sort_def)
next
  case False
  obtain r a' bs' where c: "CountAndMakeRun a bs = (r, a', bs')"
    by (cases "CountAndMakeRun a bs")
  have p: "r \<le> length a" "mset a' = mset a" "length a' = length a"
    using CountAndMakeRun_props [OF _ c] False by simp_all
  have "mset (BinaryInsertionSort (length a - r) r a' bs') = mset a'"
    using p by (intro BinaryInsertionSort_mset) simp
  then show ?thesis using False c p by (simp add: v8_sort_def)
qed

text \<open>
  For the four cards of a 2x2 board six answers are all the sort asks for: a seventh
  changes no result.
\<close>

lemma six_answers_decide:
  "list_all (\<lambda>bs. v8_sort (bs @ [True]) [''1'', ''2'', ''1'', ''2''] =
                    v8_sort bs [''1'', ''2'', ''1'', ''2'']) (coins 6)"
  by code_simp

lemma perm_length: "\<forall>xs. mset (sh xs) = mset xs \<Longrightarrow> length (sh xs) = length xs"
  by (metis size_mset)

lemma mset_in_order: "mset (in_order xs) = mset xs"
  by (simp add: in_order_def)

lemma distinct_builtin_symbols: "distinct builtin_symbols"
  by (simp add: builtin_symbols_def)

lemma length_builtin_symbols: "length builtin_symbols = 30"
  by (simp add: builtin_symbols_def)

subsection \<open>The level table\<close>

lemma getDimensions_cases:
  "getDimensions lvl = Dims r c \<Longrightarrow> (r, c) \<in> {(2, 2), (4, 3), (4, 4), (4, 5), (4, 6)}"
  by (auto simp: getDimensions_def dimensions_def split: if_splits)

lemma getDimensions_even: "getDimensions lvl = Dims r c \<Longrightarrow> even (r * c) \<and> r * c \<le> 24"
  using getDimensions_cases [of lvl r c] by auto

lemma getDimensions_Inherited:
  "getDimensions lvl = Inherited m \<Longrightarrow> m = lvl \<and> lvl \<in> set Object_prototype"
  by (auto simp: getDimensions_def split: option.splits if_splits)



lemma createGameBoard_Returns:
  "getDimensions (levelSelect g) = Dims r c \<Longrightarrow> \<exists>g'. createGameBoard sh g = Returns g'"
  by (simp add: createGameBoard_def Let_def)


lemma createGameBoard_Throws:
  "createGameBoard sh g = Throws e g' \<Longrightarrow>
     e = TypeError \<and> g' = g\<lparr>gameBoard := []\<rparr> \<and> (\<exists>m. getDimensions (levelSelect g) = Inherited m)"
  by (auto simp: createGameBoard_def Let_def split: jsvalue.splits)

subsection \<open>The board of a new game\<close>

lemma createCard_fold_store:
  "store (foldl (\<lambda>s c. createCard c s) g cs) =
     store g @ map (\<lambda>c. \<lparr>face = symbol c, flipped = False, matched = False,
                              shake_horizontal = False\<rparr>) cs \<and>
   gameBoard (foldl (\<lambda>s c. createCard c s) g cs) =
     gameBoard g @ [length (store g) ..< length (store g) + length cs]"
proof (induction cs arbitrary: g)
  case Nil
  then show ?case by simp
next
  case (Cons c cs)
  let ?n = "length (store g)"
  have upt: "[?n ..< ?n + length (c # cs)] = ?n # [Suc ?n ..< Suc ?n + length cs]"
    using upt_conv_Cons [of ?n "?n + length (c # cs)"] by simp
  have st: "store (createCard c g) = store g @
      [\<lparr>face = symbol c, flipped = False, matched = False, shake_horizontal = False\<rparr>]"
    and gb: "gameBoard (createCard c g) = gameBoard g @ [?n]"
    by (simp_all add: createCard_def)
  have "foldl (\<lambda>s c. createCard c s) g (c # cs) = foldl (\<lambda>s c. createCard c s) (createCard c g) cs"
    by simp
  then show ?case
    unfolding upt using Cons [of "createCard c g"] st gb by simp
qed

lemma new_cards_in_order:
  "map (\<lambda>a. (xs @ ys) ! a) [length xs ..< length xs + length ys] = ys"
  by (rule nth_equalityI) (auto simp: nth_append)

lemma startTimer_fields:
  "store (startTimer g) = store g" "gameBoard (startTimer g) = gameBoard g"
  "selectedCards (startTimer g) = selectedCards g" "allowClick (startTimer g) = allowClick g"
  "turns (startTimer g) = turns g" "seconds (startTimer g) = 0"
  "gameState (startTimer g) = gameState g"
  by (auto simp: startTimer_def Let_def clearInterval_def split: option.splits)

subsection \<open>A click\<close>

lemma handleCardClick_rejects:
  "\<not> allowClick g \<or> flipped (store g ! c) \<or> matched (store g ! c) \<Longrightarrow> handleCardClick c s g = g"
  by (auto simp: handleCardClick_def)

lemma handleCardClick_accepts:
  assumes "allowClick g" "\<not> flipped (store g ! c)" "\<not> matched (store g ! c)"
  shows "selectedCards (handleCardClick c s g) = selectedCards g @ [\<lparr>element = c, sel_symbol = s\<rparr>]"
    and "store (handleCardClick c s g) = (store g)[c := (store g ! c)\<lparr>flipped := True\<rparr>]"
    and "allowClick (handleCardClick c s g) = (length (selectedCards g) \<noteq> 1)"
    and "turns (handleCardClick c s g) = (if length (selectedCards g) = 1 then turns g + 1 else turns g)"
  using assms
  by (auto simp: handleCardClick_def Let_def add_flipped_def setTimeout_def updateTurns_def)




lemma step_Click_locked: "\<not> allowClick g \<Longrightarrow> step g (Click i) = g"
  by (simp add: handleCardClick_rejects)

subsection \<open>The callbacks\<close>

lemma checkMatch_returns:
  "2 \<le> length (selectedCards g) \<Longrightarrow> \<exists>g'. checkMatch g = Returns g'"
  by (auto simp: checkMatch_def Let_def split: list.splits)

lemma checkMatch_selection:
  "checkMatch g = Returns g' \<Longrightarrow> selectedCards g' = [] \<and> allowClick g' = allowClick g"
  by (auto simp: checkMatch_def Let_def setTimeout_def handleMatch_def handleMismatch_def
      requestAnimationFrame_def play_def add_shake_def split: list.splits if_splits)



lemma checkGameOver_frame:
  "selectedCards (checkGameOver g) = selectedCards g"
  "allowClick (checkGameOver g) = allowClick g"
  "gameState (checkGameOver g) = gameState g"
  "savedStats (checkGameOver g) = savedStats g"
  "turns (checkGameOver g) = turns g"
  "store (checkGameOver g) = store g"
  by (auto simp: checkGameOver_def clearInterval_def play_def split: option.splits)

lemma run_task_selection:
  "t \<noteq> CheckMatch \<Longrightarrow> run_task t g = Returns g' \<Longrightarrow> selectedCards g' = selectedCards g"
  by (cases t) (auto simp: checkGameOver_frame setTimeout_def add_matched_def remove_flipped_shake_def)



subsection \<open>The list of pending callbacks\<close>

lemma earliest_mem: "earliest ps = Some p \<Longrightarrow> p \<in> set ps"
  by (induction ps arbitrary: p) (auto split: option.splits if_splits)

lemma remove_first_filter:
  "distinct (map tid ps) \<Longrightarrow> p \<in> set ps \<Longrightarrow>
     remove_first (tid p) ps = filter (\<lambda>q. tid q \<noteq> tid p) ps"
proof (induction ps)
  case Nil
  then show ?case by simp
next
  case (Cons a ps)
  show ?case
  proof (cases "tid a = tid p")
    case True
    then have "\<forall>q \<in> set ps. tid q \<noteq> tid p"
      using Cons.prems(1) by (auto simp: image_iff)
    then have "filter (\<lambda>q. tid q \<noteq> tid p) ps = ps"
      by (simp add: filter_id_conv)
    with True show ?thesis by simp
  next
    case False
    then have "p \<in> set ps" using Cons.prems(2) by auto
    with Cons False show ?thesis by simp
  qed
qed

lemma count_without:
  "distinct (map tid ps) \<Longrightarrow> p \<in> set ps \<Longrightarrow>
     length (filter (\<lambda>q. what q = t) (filter (\<lambda>q. tid q \<noteq> tid p) ps)) =
       length (filter (\<lambda>q. what q = t) ps) - (if what p = t then 1 else 0)"
proof (induction ps)
  case Nil
  then show ?case by simp
next
  case (Cons a ps)
  show ?case
  proof (cases "a = p")
    case True
    then have "\<forall>q \<in> set ps. tid q \<noteq> tid p"
      using Cons.prems(1) by (auto simp: image_iff)
    then have "filter (\<lambda>q. tid q \<noteq> tid p) ps = ps"
      by (simp add: filter_id_conv)
    with True show ?thesis by simp
  next
    case False
    then have mem: "p \<in> set ps" using Cons.prems(2) by auto
    then have ne: "tid a \<noteq> tid p"
      using Cons.prems(1) by (auto simp: image_iff)
    have pos: "what p = t \<Longrightarrow> 0 < length (filter (\<lambda>q. what q = t) ps)"
      using mem by (auto simp: filter_empty_conv)
    have "length (filter (\<lambda>q. what q = t) (filter (\<lambda>q. tid q \<noteq> tid p) ps)) =
       length (filter (\<lambda>q. what q = t) ps) - (if what p = t then 1 else 0)"
      using Cons mem by simp
    then show ?thesis using ne pos by auto
  qed
qed

subsection \<open>The input lock in a run\<close>

lemmas lock_defs = awaiting_def quiet_def open_lock_def pair_selected_def resolving_def
  fresh_ids_def lock_inv_def

lemma fresh_ids_without:
  assumes "fresh_ids g" "p \<in> set (pending g)"
  shows "fresh_ids (g\<lparr>now := n, pending := filter (\<lambda>q. tid q \<noteq> tid p) (pending g)\<rparr>)"
    and "fresh_ids (g\<lparr>now := n,
            pending := filter (\<lambda>q. tid q \<noteq> tid p) (pending g) @ [p\<lparr>due := d\<rparr>]\<rparr>)"
  using assms by (auto simp: fresh_ids_def distinct_map_filter list_all_iff)

lemma handleCardClick_lock_inv: "lock_inv g \<Longrightarrow> lock_inv (handleCardClick c s g)"
  by (auto simp: handleCardClick_def Let_def add_flipped_def setTimeout_def updateTurns_def
      lock_defs list_all_iff le_Suc_eq)

lemma foldl_createCard_fields:
  "pending (foldl (\<lambda>s c. createCard c s) g cs) = pending g \<and>
   next_id (foldl (\<lambda>s c. createCard c s) g cs) = next_id g \<and>
   allowClick (foldl (\<lambda>s c. createCard c s) g cs) = allowClick g \<and>
   selectedCards (foldl (\<lambda>s c. createCard c s) g cs) = selectedCards g \<and>
   timer (foldl (\<lambda>s c. createCard c s) g cs) = timer g \<and>
   now (foldl (\<lambda>s c. createCard c s) g cs) = now g"
  by (induction cs arbitrary: g) (simp_all add: createCard_def)

lemma startTimer_lock_inv:
  assumes "fresh_ids g" "quiet g" "allowClick g" "selectedCards g = []"
  shows "lock_inv (startTimer g)"
proof -
  have "length (filter (\<lambda>p. what p = t) (filter (\<lambda>p. tid p \<noteq> i) (pending g))) = 0"
    if "length (filter (\<lambda>p. what p = t) (pending g)) = 0" for t i
    using that by (auto simp: filter_empty_conv)
  then show ?thesis
    using assms
    by (auto simp: startTimer_def clearInterval_def Let_def lock_defs distinct_map_filter
        list_all_iff filter_empty_conv split: option.splits)
qed

lemma startGame_lock_inv:
  assumes "lock_inv g" "quiet g"
  shows "lock_inv (settle (startGame sh g))"
proof -
  let ?g1 = "g\<lparr>message_shown := False, selectedCards := [], allowClick := True, turns := 0\<rparr>"
  show ?thesis
  proof (cases "createGameBoard sh ?g1")
    case (Throws e g2)
    then have "g2 = ?g1\<lparr>gameBoard := []\<rparr>"
      by (auto simp: createGameBoard_def Let_def split: jsvalue.splits)
    with Throws assms show ?thesis
      by (simp add: startGame_def Let_def settle_def lock_defs)
  next
    case (Returns g2)
    then obtain cs where "g2 = foldl (\<lambda>s c. createCard c s) (?g1\<lparr>gameBoard := []\<rparr>) cs"
      by (auto simp: createGameBoard_def Let_def split: jsvalue.splits)
    then have "pending g2 = pending g" "next_id g2 = next_id g" "allowClick g2"
      "selectedCards g2 = []"
      by (simp_all add: foldl_createCard_fields)
    then have "fresh_ids g2" "quiet g2"
      using assms by (simp_all add: lock_defs)
    then have "lock_inv (startTimer g2)"
      using \<open>allowClick g2\<close> \<open>selectedCards g2 = []\<close> by (rule startTimer_lock_inv)
    with Returns show ?thesis
      by (simp add: startGame_def Let_def settle_def)
  qed
qed

lemma checkMatch_lock_inv:
  assumes "fresh_ids g" "\<not> allowClick g" "length (selectedCards g) = 2"
    "awaiting CheckMatch g = 0" "awaiting Unlock g = 0"
  shows "\<exists>g'. checkMatch g = Returns g' \<and> resolving g' \<and> fresh_ids g'"
proof -
  obtain a b where sel: "selectedCards g = [a, b]"
    using assms(3) by (cases "selectedCards g"; cases "tl (selectedCards g)") auto
  show ?thesis
    using assms sel
    by (auto simp: checkMatch_def Let_def setTimeout_def handleMatch_def handleMismatch_def
        requestAnimationFrame_def play_def add_shake_def lock_defs list_all_iff)
qed

lemma Unlock_lock_inv:
  assumes "fresh_ids g" "selectedCards g = []" "awaiting CheckMatch g = 0" "awaiting Unlock g = 0"
  shows "open_lock (checkGameOver (g\<lparr>allowClick := True\<rparr>)) \<and>
         fresh_ids (checkGameOver (g\<lparr>allowClick := True\<rparr>))"
  using assms
  by (auto simp: checkGameOver_def clearInterval_def play_def lock_defs distinct_map_filter
      list_all_iff filter_empty_conv split: option.splits)

lemma fire_lock_inv:
  assumes "lock_inv g"
  shows "lock_inv (fire g)"
proof (cases "earliest (pending g)")
  case None
  then show ?thesis using assms by (simp add: fire_def)
next
  case (Some p)
  have mem: "p \<in> set (pending g)" using Some by (rule earliest_mem)
  have fresh: "fresh_ids g" using assms by (simp add: lock_inv_def)
  then have dist: "distinct (map tid (pending g))" by (simp add: fresh_ids_def)
  define rest where "rest = filter (\<lambda>q. tid q \<noteq> tid p) (pending g)"
  have rest: "remove_first (tid p) (pending g) = rest"
    unfolding rest_def using dist mem by (rule remove_first_filter)
  define g1 where "g1 = g\<lparr>now := max (now g) (due p),
      pending := (if what p = Tick then rest @ [p\<lparr>due := due p + 1000\<rparr>] else rest)\<rparr>"
  have fire: "fire g = settle (run_task (what p) g1)"
    by (simp add: fire_def Some Let_def g1_def rest)
  have cnt: "awaiting t g1 = awaiting t g - (if what p = t then 1 else 0)" if "t \<noteq> Tick" for t
    using count_without [OF dist mem, of t] that by (auto simp: awaiting_def g1_def rest_def)
  have fresh1: "fresh_ids g1"
    using fresh_ids_without [OF fresh mem] by (simp add: g1_def rest_def)
  have same: "allowClick g1 = allowClick g" "selectedCards g1 = selectedCards g"
    by (simp_all add: g1_def)
  have pos: "0 < awaiting (what p) g"
    using mem by (auto simp: awaiting_def filter_empty_conv)
  show ?thesis
  proof (cases "what p")
    case CheckMatch
    then have "pair_selected g"
      using assms pos by (auto simp: lock_inv_def open_lock_def quiet_def resolving_def)
    then have "\<exists>g'. checkMatch g1 = Returns g' \<and> resolving g' \<and> fresh_ids g'"
      using fresh1 same cnt [of CheckMatch] cnt [of Unlock] CheckMatch
      by (intro checkMatch_lock_inv) (auto simp: pair_selected_def)
    then show ?thesis
      using CheckMatch by (auto simp: fire settle_def lock_inv_def)
  next
    case Unlock
    then have "resolving g"
      using assms pos by (auto simp: lock_inv_def open_lock_def quiet_def pair_selected_def)
    then have "open_lock (checkGameOver (g1\<lparr>allowClick := True\<rparr>)) \<and>
         fresh_ids (checkGameOver (g1\<lparr>allowClick := True\<rparr>))"
      using fresh1 same cnt [of CheckMatch] cnt [of Unlock] Unlock
      by (intro Unlock_lock_inv) (auto simp: resolving_def)
    then show ?thesis
      using Unlock by (auto simp: fire settle_def lock_inv_def)
  next
    case (Frame e1 e2)
    then have "awaiting CheckMatch g1 = awaiting CheckMatch g" "awaiting Unlock g1 = awaiting Unlock g"
      using cnt [of CheckMatch] cnt [of Unlock] by simp_all
    then show ?thesis
      using assms fresh1 same Frame
      by (auto simp: fire settle_def setTimeout_def lock_defs list_all_iff)
  next
    case (MarkMatched e1 e2)
    then have "awaiting CheckMatch g1 = awaiting CheckMatch g" "awaiting Unlock g1 = awaiting Unlock g"
      using cnt [of CheckMatch] cnt [of Unlock] by simp_all
    then show ?thesis
      using assms fresh1 same MarkMatched
      by (auto simp: fire settle_def add_matched_def lock_defs)
  next
    case (Unflip e1 e2)
    then have "awaiting CheckMatch g1 = awaiting CheckMatch g" "awaiting Unlock g1 = awaiting Unlock g"
      using cnt [of CheckMatch] cnt [of Unlock] by simp_all
    then show ?thesis
      using assms fresh1 same Unflip
      by (auto simp: fire settle_def remove_flipped_shake_def lock_defs)
  next
    case Tick
    then have "awaiting CheckMatch g1 = awaiting CheckMatch g" "awaiting Unlock g1 = awaiting Unlock g"
      using cnt [of CheckMatch] cnt [of Unlock] by simp_all
    then show ?thesis
      using assms fresh1 same Tick
      by (auto simp: fire settle_def lock_defs)
  qed
qed

lemma Delay_lock_inv: "lock_inv g \<Longrightarrow> lock_inv (step g (Delay ms))"
  by (auto simp: lock_defs split: option.splits)

lemma new_MemoryGame_lock_inv: "lock_inv (new_MemoryGame lvl fd)"
  by (simp add: new_MemoryGame_def lock_defs)

lemma calm_lock_inv: "lock_inv g \<Longrightarrow> calm g evs \<Longrightarrow> lock_inv (run g evs)"
proof (induction g evs rule: calm.induct)
  case (1 g)
  then show ?case by (simp add: run_def)
next
  case (2 g lvl sh evs)
  have "lock_inv (g\<lparr>levelSelect := lvl\<rparr>)" "quiet (g\<lparr>levelSelect := lvl\<rparr>)"
    using 2 by (simp_all add: lock_defs)
  then have "lock_inv (step g (Start lvl sh))"
    using startGame_lock_inv by simp
  with 2 show ?case by (simp add: run_def)
next
  case (3 g i evs)
  then show ?case by (simp add: run_def handleCardClick_lock_inv)
next
  case (4 g ms evs)
  then have "lock_inv (step g (Delay ms))" by (intro Delay_lock_inv)
  with 4 show ?case by (simp add: run_def)
next
  case (5 g evs)
  then show ?case by (simp add: run_def fire_lock_inv)
qed

lemma calm_run_lock:
  assumes "calm (new_MemoryGame lvl fd) evs"
  shows "open_lock (run (new_MemoryGame lvl fd) evs) \<or>
         pair_selected (run (new_MemoryGame lvl fd) evs) \<or>
         resolving (run (new_MemoryGame lvl fd) evs)"
  using calm_lock_inv [OF new_MemoryGame_lock_inv assms] by (simp add: lock_inv_def)

lemma calm_run_two_selected:
  assumes "calm (new_MemoryGame lvl fd) evs"
  shows "length (selectedCards (run (new_MemoryGame lvl fd) evs)) \<le> 2"
    and "length (selectedCards (run (new_MemoryGame lvl fd) evs)) = 2 \<Longrightarrow>
           \<not> allowClick (run (new_MemoryGame lvl fd) evs)"
    and "0 < awaiting Unlock (run (new_MemoryGame lvl fd) evs) \<Longrightarrow>
           \<not> allowClick (run (new_MemoryGame lvl fd) evs) \<and>
           selectedCards (run (new_MemoryGame lvl fd) evs) = []"
  using calm_run_lock [OF assms]
  by (auto simp: open_lock_def pair_selected_def resolving_def quiet_def)

subsection \<open>The concrete runs, evaluated\<close>

lemma winning_run_end:
  "(let w = run started winning_run in
      remainingCards w = [] \<and> awaiting Tick w = 0 \<and> seconds w = 4 \<and>
      seconds (run w [Timer, Delay 5000, Timer]) = 4 \<and>
      gameState w = PLAYING \<and> savedStats w = [] \<and>
      gameState (checkGameOver_first w) = FINISHED \<and>
      savedStats (checkGameOver_first w) = [\<lparr>level = ''2x2'', stat_turns = 2, time = 4\<rparr>])"
  by code_simp

lemma restart_run_end:
  "(let r = run started restart_run in
      gameBoard r = [4, 5, 6, 7] \<and> map element (selectedCards r) = [4, 5] \<and>
      \<not> allowClick r \<and> turns r = 1 \<and> timer r = Some 5 \<and>
      map what (pending r) = [Unlock, Tick, CheckMatch] \<and> map tid (pending r) = [4, 5, 6] \<and>
      allowClick (run r [Timer]) \<and>
      map what (pending (run r [Timer])) = [Tick, CheckMatch] \<and>
      map element (selectedCards (run r [Timer, Click 2])) = [4, 5, 6])"
  by code_simp

lemma restart_run_stuck:
  "(let f = run started (restart_run @ [Timer, Click 2, Timer, Timer, Timer, Timer, Timer]) in
      selectedCards f = [] \<and> map what (pending f) = [Tick] \<and> allowClick f \<and>
      flipped (store f ! 6) \<and> \<not> matched (store f ! 6) \<and>
      run f [Click 2] = f)"
  by code_simp

lemma level_change_run_end:
  "(let r = run started_4x3 level_change_run in
      levelSelect r = ''2x2'' \<and> gameBoard r = [12, 13, 14, 15] \<and>
      map element (selectedCards r) = [12, 13] \<and>
      \<not> allowClick r \<and> timer r = Some 5 \<and>
      map what (pending r) = [Unlock, Tick, CheckMatch] \<and> map tid (pending r) = [4, 5, 6] \<and>
      allowClick (run r [Timer]) \<and>
      map what (pending (run r [Timer])) = [Tick, CheckMatch] \<and>
      map element (selectedCards (run r [Timer, Click 2])) = [12, 13, 14])"
  by code_simp


lemma second_flip:
  "(let p = run started [Click 0, Click 1] in
      gameState p = IDLE \<and> \<not> allowClick p \<and> map element (selectedCards p) = [0, 1] \<and>
      length (selectedCards p) = 2 \<and>
      turns p = 1 \<and> map what (pending p) = [Tick, CheckMatch])"
  by code_simp

lemma first_flip:
  "(let q = run started [Click 0] in
      gameState started = IDLE \<and> allowClick started \<and> selectedCards started = [] \<and>
      turns started = 0 \<and> store started ! 0 =
        \<lparr>face = ''1'', flipped = False, matched = False, shake_horizontal = False\<rparr> \<and>
      length (store started) = 4 \<and>
      allowClick q \<and> map element (selectedCards q) = [0] \<and>
      length (selectedCards q) = 1 \<and> turns q = 0 \<and>
      flipped (store q ! 0) \<and> \<not> flipped (store q ! 2) \<and> \<not> matched (store q ! 2) \<and>
      gameState q = IDLE)"
  by code_simp

section \<open>The claims\<close>

subsection \<open>C1: the end of the game\<close>

text \<open>
  C1 says that once every card is matched the engine goes to Finished, stops the timer and
  hands over the final stats. The method that runs is the second \<open>checkGameOver\<close>: at the
  end of a whole 2x2 game no card remains unmatched and the interval is gone, so the
  seconds stay at 4 whatever time passes, but \<open>gameState\<close> is still \<open>PLAYING\<close> and nothing
  was saved. The first definition, which the second one replaces, would have set
  \<open>FINISHED\<close> and saved the stats of the game.
\<close>

theorem checkGameOver_never_FINISHED:
  "remainingCards (run started winning_run) = [] \<and>
   awaiting Tick (run started winning_run) = 0 \<and>
   seconds (run started winning_run) = 4 \<and>
   seconds (run (run started winning_run) [Timer, Delay 5000, Timer]) = 4 \<and>
   gameState (run started winning_run) = PLAYING \<and>
   savedStats (run started winning_run) = [] \<and>
   gameState (checkGameOver_first (run started winning_run)) = FINISHED \<and>
   savedStats (checkGameOver_first (run started winning_run)) =
     [\<lparr>level = ''2x2'', stat_turns = 2, time = 4\<rparr>]"
  using winning_run_end by (simp add: Let_def)

subsection \<open>C2: the shuffle\<close>

text \<open>
  C2 as amended: \<open>shuffleCards\<close> takes the first \<open>(rows * cols) div 2\<close> symbols of the pool,
  doubles them, and hands the deck to the sort with its random comparator; the board is
  the deck in exactly the order the sort returns, with the cards numbered 0, 1, 2, ... in
  that order. When the sort returns a permutation, as a sort does, the board holds the
  doubled symbols and nothing else. Nothing is said of how likely each order is.
\<close>

theorem shuffleCards_in_sort_order:
  "map symbol (shuffleCards sh (rows * cols) syms) =
     sh (take (rows * cols div 2) syms @ take (rows * cols div 2) syms) \<and>
   map ident (shuffleCards sh (rows * cols) syms) =
     [0 ..< length (shuffleCards sh (rows * cols) syms)] \<and>
   ((\<forall>xs. mset (sh xs) = mset xs) \<longrightarrow>
      mset (map symbol (shuffleCards sh (rows * cols) syms)) =
        mset (take (rows * cols div 2) syms) + mset (take (rows * cols div 2) syms) \<and>
      length (shuffleCards sh (rows * cols) syms) = 2 * min (rows * cols div 2) (length syms))"
proof -
  let ?deck = "take (rows * cols div 2) syms @ take (rows * cols div 2) syms"
  have order: "map symbol (shuffleCards sh (rows * cols) syms) = sh ?deck"
    by (rule symbols_shuffleCards)
  have ids: "map ident (shuffleCards sh (rows * cols) syms) =
      [0 ..< length (shuffleCards sh (rows * cols) syms)]"
    by (simp add: idents_shuffleCards length_shuffleCards)
  have perm: "mset (map symbol (shuffleCards sh (rows * cols) syms)) =
        mset (take (rows * cols div 2) syms) + mset (take (rows * cols div 2) syms) \<and>
      length (shuffleCards sh (rows * cols) syms) = 2 * min (rows * cols div 2) (length syms)"
    if p: "\<forall>xs. mset (sh xs) = mset xs"
  proof -
    have "length (sh ?deck) = length ?deck"
      using p by (rule perm_length)
    then have "length (shuffleCards sh (rows * cols) syms) = 2 * min (rows * cols div 2) (length syms)"
      by (simp add: length_shuffleCards min_def)
    moreover have "mset (sh ?deck) = mset ?deck"
      using p by simp
    ultimately show ?thesis
      unfolding order by simp
  qed
  show ?thesis using order ids perm by blast
qed

theorem shuffleCards_in_sort_order_witness:
  "map symbol (shuffleCards (v8_sort [True, False, True]) (2 * 2) builtin_symbols) =
     [''2'', ''1'', ''1'', ''2''] \<and>
   map ident (shuffleCards (v8_sort [True, False, True]) (2 * 2) builtin_symbols) =
     [0 ..< length (shuffleCards (v8_sort [True, False, True]) (2 * 2) builtin_symbols)] \<and>
   (\<forall>xs :: string list. mset (v8_sort [True, False, True] xs) = mset xs) \<and>
   mset (map symbol (shuffleCards (v8_sort [True, False, True]) (2 * 2) builtin_symbols)) =
     mset (take (2 * 2 div 2) builtin_symbols) + mset (take (2 * 2 div 2) builtin_symbols) \<and>
   length (shuffleCards (v8_sort [True, False, True]) (2 * 2) builtin_symbols) =
     2 * min (2 * 2 div 2) (length builtin_symbols)"
proof -
  have a: "\<forall>xs :: string list. mset (v8_sort [True, False, True] xs) = mset xs"
    by (simp add: mset_v8_sort)
  have b: "v8_sort [True, False, True]
             (take (2 * 2 div 2) builtin_symbols @ take (2 * 2 div 2) builtin_symbols) =
           [''2'', ''1'', ''1'', ''2'']"
    by code_simp
  have c: "map symbol (shuffleCards (v8_sort [True, False, True]) (2 * 2) builtin_symbols) =
      [''2'', ''1'', ''1'', ''2'']"
    using b shuffleCards_in_sort_order [of "v8_sort [True, False, True]" 2 2 builtin_symbols]
    by (simp only:)
  show ?thesis
    using a c shuffleCards_in_sort_order [of "v8_sort [True, False, True]" 2 2 builtin_symbols]
    by blast
qed

text \<open>
  C2 as stated asks for a uniformly random permutation from a fair shuffle, not from a
  sort with a random comparator. Line 158 is a sort with a random comparator. Under V8's
  sort, each answer of the comparator being negative or not with equal chance, six answers
  decide the order of the four cards of a 2x2 board. Of the 64 equally likely sequences
  of answers 4 give 1, 1, 2, 2 and 17 give 1, 2, 1, 2, the order of the deck before the
  sort; 14, 5, 18 and 6 give the other four. A uniform shuffle gives each of the six
  arrangements the same share.
\<close>

theorem sort_shuffle_not_uniform:
  "length (coins 6) = 64 \<and>
   length (filter (\<lambda>bs. map symbol (shuffleCards (v8_sort bs) (2 * 2) builtin_symbols) =
                          [''1'', ''1'', ''2'', ''2'']) (coins 6)) = 4 \<and>
   length (filter (\<lambda>bs. map symbol (shuffleCards (v8_sort bs) (2 * 2) builtin_symbols) =
                          [''1'', ''2'', ''1'', ''2'']) (coins 6)) = 17 \<and>
   length (filter (\<lambda>bs. map symbol (shuffleCards (v8_sort bs) (2 * 2) builtin_symbols) =
                          [''1'', ''2'', ''2'', ''1'']) (coins 6)) = 14 \<and>
   length (filter (\<lambda>bs. map symbol (shuffleCards (v8_sort bs) (2 * 2) builtin_symbols) =
                          [''2'', ''1'', ''1'', ''2'']) (coins 6)) = 5 \<and>
   length (filter (\<lambda>bs. map symbol (shuffleCards (v8_sort bs) (2 * 2) builtin_symbols) =
                          [''2'', ''1'', ''2'', ''1'']) (coins 6)) = 18 \<and>
   length (filter (\<lambda>bs. map symbol (shuffleCards (v8_sort bs) (2 * 2) builtin_symbols) =
                          [''2'', ''2'', ''1'', ''1'']) (coins 6)) = 6"
  by code_simp

subsection \<open>C3: odd and oversized boards\<close>

text \<open>
  C3 as amended: no request is rejected for its dimensions. \<open>shuffleCards\<close> returns a
  board for every total, of twice the smaller of \<open>totalCards div 2\<close> and the size of the
  pool, so an odd total loses a card and an oversized one is cut to twice the pool. Such
  totals are kept out by the level table: every pair \<open>getDimensions\<close> returns has an even
  product that the built-in pool covers.
\<close>

theorem no_InvalidDimensions:
  "((\<forall>xs. length (sh xs) = length xs) \<longrightarrow>
      length (shuffleCards sh totalCards syms) = 2 * min (totalCards div 2) (length syms)) \<and>
   (\<forall>r c. getDimensions lvl = Dims r c \<longrightarrow>
      even (r * c) \<and> r * c \<le> 2 * length builtin_symbols)"
proof -
  have "r * c \<le> 2 * length builtin_symbols \<and> even (r * c)" if "getDimensions lvl = Dims r c" for r c
    using getDimensions_even [OF that] by (simp add: length_builtin_symbols)
  then show ?thesis
    by (auto simp: length_shuffleCards min_def)
qed

theorem no_InvalidDimensions_witness:
  "(\<forall>xs :: string list. length (in_order xs) = length xs) \<and>
   length (shuffleCards in_order 9 builtin_symbols) = 2 * min (9 div 2) (length builtin_symbols) \<and>
   getDimensions ''4x6'' = Dims 4 6 \<and> even ((4::nat) * 6) \<and>
   (4::nat) * 6 \<le> 2 * length builtin_symbols"
proof -
  have a: "\<forall>xs :: string list. length (in_order xs) = length xs"
    by (simp add: in_order_def)
  have b: "getDimensions ''4x6'' = Dims 4 6"
    by code_simp
  show ?thesis
    using a b no_InvalidDimensions [of in_order 9 builtin_symbols "''4x6''"]
    by blast
qed

text \<open>
  C3 as stated: a request with an odd or an oversized product fails with
  InvalidDimensions. For 3 x 3 and for 8 x 8 \<open>shuffleCards\<close> returns a board, of 8 and of
  60 cards.
\<close>

theorem odd_board_not_rejected:
  "length (shuffleCards in_order (3 * 3) builtin_symbols) = 8 \<and>
   length (shuffleCards in_order (8 * 8) builtin_symbols) = 60"
  by code_simp

subsection \<open>C4: the lock during a resolution\<close>




subsection \<open>C5: a game started during a resolution\<close>

text \<open>
  C5 says that a callback of the previous game that is still pending when a game is
  started is cancelled, or has no effect on the new game. \<open>startGame\<close> clears the interval
  and nothing else. In the run below the new game has the board 4, 5, 6, 7, its lock is
  closed on the cards 4 and 5, and the unlocking callback the old game registered (its
  identifier 4 is older than the new game's interval, 5) is first in line. It runs and
  opens the lock of the new game while \<open>checkMatch\<close> is still pending; a third card can
  be turned, and it stays turned, unmatched and out of the selection when everything has
  run, where a click on it is rejected. The same happens when the game is started by a
  change of level, from a 4x3 board to 2x2: the new board is 12, 13, 14, 15, and the old
  callback opens the lock on the cards 12 and 13.
\<close>

theorem stale_Unlock_opens_new_game:
  "gameBoard (run started restart_run) = [4, 5, 6, 7] \<and>
   map element (selectedCards (run started restart_run)) = [4, 5] \<and>
   \<not> allowClick (run started restart_run) \<and>
   timer (run started restart_run) = Some 5 \<and>
   map what (pending (run started restart_run)) = [Unlock, Tick, CheckMatch] \<and>
   map tid (pending (run started restart_run)) = [4, 5, 6] \<and>
   allowClick (run (run started restart_run) [Timer]) \<and>
   map what (pending (run (run started restart_run) [Timer])) = [Tick, CheckMatch] \<and>
   map element (selectedCards (run (run started restart_run) [Timer, Click 2])) = [4, 5, 6] \<and>
   selectedCards (run started (restart_run @ [Timer, Click 2, Timer, Timer, Timer, Timer, Timer])) = [] \<and>
   flipped (store (run started (restart_run @ [Timer, Click 2, Timer, Timer, Timer, Timer, Timer])) ! 6) \<and>
   \<not> matched (store (run started (restart_run @ [Timer, Click 2, Timer, Timer, Timer, Timer, Timer])) ! 6) \<and>
   run (run started (restart_run @ [Timer, Click 2, Timer, Timer, Timer, Timer, Timer])) [Click 2] =
     run started (restart_run @ [Timer, Click 2, Timer, Timer, Timer, Timer, Timer]) \<and>
   levelSelect (run started_4x3 level_change_run) = ''2x2'' \<and>
   gameBoard (run started_4x3 level_change_run) = [12, 13, 14, 15] \<and>
   map element (selectedCards (run started_4x3 level_change_run)) = [12, 13] \<and>
   \<not> allowClick (run started_4x3 level_change_run) \<and>
   map what (pending (run started_4x3 level_change_run)) = [Unlock, Tick, CheckMatch] \<and>
   allowClick (run (run started_4x3 level_change_run) [Timer]) \<and>
   map what (pending (run (run started_4x3 level_change_run) [Timer])) = [Tick, CheckMatch] \<and>
   map element (selectedCards (run (run started_4x3 level_change_run) [Timer, Click 2])) =
     [12, 13, 14]"
  using restart_run_end restart_run_stuck level_change_run_end by (simp add: Let_def)

subsection \<open>C6: two cards for each symbol\<close>

text \<open>
  C6: for every \<open>rows\<close> and \<open>cols\<close> whose product is even and no more than twice the pool,
  the board \<open>shuffleCards\<close> makes from the built-in pool has \<open>rows * cols\<close> cards, and every
  symbol on it is on exactly two of them. The sort is any function that returns a
  permutation of its argument.
\<close>

theorem shuffleCards_two_per_symbol:
  assumes even: "even (rows * cols)"
    and fits: "rows * cols \<le> 2 * length builtin_symbols"
    and perm: "\<forall>xs. mset (sh xs) = mset xs"
  shows "length (shuffleCards sh (rows * cols) builtin_symbols) = rows * cols \<and>
         (\<forall>s \<in> set (map symbol (shuffleCards sh (rows * cols) builtin_symbols)).
            count_list (map symbol (shuffleCards sh (rows * cols) builtin_symbols)) s = 2)"
proof -
  let ?half = "take (rows * cols div 2) builtin_symbols"
  let ?board = "map symbol (shuffleCards sh (rows * cols) builtin_symbols)"
  have board: "mset ?board = mset ?half + mset ?half"
    using perm by (simp add: symbols_shuffleCards)
  have "length (shuffleCards sh (rows * cols) builtin_symbols) = length (sh (?half @ ?half))"
    by (rule length_shuffleCards)
  also have "\<dots> = length (?half @ ?half)"
    using perm by (rule perm_length)
  also have "\<dots> = 2 * (rows * cols div 2)"
    using fits by simp
  also have "\<dots> = rows * cols"
    using even by simp
  finally have len: "length (shuffleCards sh (rows * cols) builtin_symbols) = rows * cols" .
  have two: "count_list ?board s = 2" if "s \<in> set ?board" for s
  proof -
    have "s \<in> set_mset (mset ?board)"
      using that by (simp only: set_mset_mset)
    then have "s \<in> set_mset (mset ?half + mset ?half)"
      by (simp only: board)
    then have "s \<in> set ?half" by simp
    moreover have "distinct ?half" using distinct_builtin_symbols by simp
    ultimately have "count (mset ?half) s = 1"
      by (simp add: distinct_count_atmost_1)
    then have "count (mset ?board) s = 2" unfolding board by simp
    then show ?thesis by (simp only: count_mset)
  qed
  show ?thesis using len two by blast
qed

theorem shuffleCards_two_per_symbol_witness:
  "even ((4::nat) * 3) \<and> (4::nat) * 3 \<le> 2 * length builtin_symbols \<and>
   length (shuffleCards (v8_sort [True, False, True, True]) (4 * 3) builtin_symbols) = 4 * 3 \<and>
   ''5'' \<in> set (map symbol (shuffleCards (v8_sort [True, False, True, True]) (4 * 3) builtin_symbols)) \<and>
   count_list (map symbol (shuffleCards (v8_sort [True, False, True, True]) (4 * 3) builtin_symbols)) ''5'' = 2"
proof -
  have a: "even ((4::nat) * 3)" by simp
  have b: "(4::nat) * 3 \<le> 2 * length builtin_symbols" by (simp add: length_builtin_symbols)
  have c: "\<forall>xs :: string list. mset (v8_sort [True, False, True, True] xs) = mset xs"
    by (simp add: mset_v8_sort)
  have d: "''5'' \<in> set (map symbol (shuffleCards (v8_sort [True, False, True, True]) (4 * 3) builtin_symbols))"
    by code_simp
  show ?thesis
    using a b d shuffleCards_two_per_symbol [OF a b c] by blast
qed

subsection \<open>C7: flips that are ignored\<close>




subsection \<open>C8: the turn counter\<close>

text \<open>
  C8: a flip that takes the selection from one card to two adds exactly one to \<open>turns\<close>; a
  flip after which one card is selected leaves \<open>turns\<close> as it was; and \<open>turns\<close> changes
  in no other call of \<open>handleCardClick\<close>.
\<close>

theorem turns_once_per_pair:
  "(length (selectedCards g) = 1 \<and> length (selectedCards (handleCardClick c s g)) = 2
      \<longrightarrow> turns (handleCardClick c s g) = turns g + 1) \<and>
   (length (selectedCards (handleCardClick c s g)) = 1
      \<longrightarrow> turns (handleCardClick c s g) = turns g) \<and>
   (turns (handleCardClick c s g) \<noteq> turns g
      \<longrightarrow> length (selectedCards g) = 1 \<and> length (selectedCards (handleCardClick c s g)) = 2)"
proof (cases "\<not> allowClick g \<or> flipped (store g ! c) \<or> matched (store g ! c)")
  case True
  then show ?thesis by (simp add: handleCardClick_rejects)
next
  case False
  then show ?thesis by (simp add: handleCardClick_accepts)
qed

theorem turns_once_per_pair_witness:
  "length (selectedCards (run started [Click 0])) = 1 \<and>
   length (selectedCards (handleCardClick 2 ''1'' (run started [Click 0]))) = 2 \<and>
   turns (handleCardClick 2 ''1'' (run started [Click 0])) = turns (run started [Click 0]) + 1 \<and>
   length (selectedCards (handleCardClick 0 ''1'' started)) = 1 \<and>
   turns (handleCardClick 0 ''1'' started) = turns started"
proof -
  have a: "length (selectedCards (run started [Click 0])) = 1"
    using first_flip by (simp add: Let_def)
  have b: "length (selectedCards (handleCardClick 2 ''1'' (run started [Click 0]))) = 2"
    using first_flip by (simp add: Let_def handleCardClick_accepts)
  have c: "length (selectedCards (handleCardClick 0 ''1'' started)) = 1"
    using first_flip by (simp add: Let_def handleCardClick_accepts)
  show ?thesis
    using a b c turns_once_per_pair [of "run started [Click 0]" 2 "''1''"]
      turns_once_per_pair [of started 0 "''1''"]
    by blast
qed

subsection \<open>C9: the selection after a resolution\<close>

text \<open>
  C9: \<open>checkMatch\<close> returns whenever two cards are selected, and the state it returns,
  for a match and for a mismatch, has an empty selection and the lock as it was. No
  later callback touches the selection. In a run in which no game is started while a
  resolution is under way, as long as the unlocking callback of a resolution is pending
  the selection is empty and every flip is rejected: the selection has size 0 when the
  next flip is accepted.
\<close>

theorem selection_empty_after_resolution:
  "(2 \<le> length (selectedCards g) \<longrightarrow> (\<exists>g'. checkMatch g = Returns g')) \<and>
   (\<forall>g'. checkMatch g = Returns g' \<longrightarrow> selectedCards g' = [] \<and> allowClick g' = allowClick g) \<and>
   (\<forall>t g'. t \<noteq> CheckMatch \<and> run_task t g = Returns g' \<longrightarrow> selectedCards g' = selectedCards g) \<and>
   (calm (new_MemoryGame lvl fd) evs \<and> 0 < awaiting Unlock (run (new_MemoryGame lvl fd) evs)
      \<longrightarrow> selectedCards (run (new_MemoryGame lvl fd) evs) = [] \<and>
          (\<forall>i. step (run (new_MemoryGame lvl fd) evs) (Click i) = run (new_MemoryGame lvl fd) evs))"
proof -
  have "selectedCards (run (new_MemoryGame lvl fd) evs) = [] \<and>
      (\<forall>i. step (run (new_MemoryGame lvl fd) evs) (Click i) = run (new_MemoryGame lvl fd) evs)"
    if "calm (new_MemoryGame lvl fd) evs" "0 < awaiting Unlock (run (new_MemoryGame lvl fd) evs)"
    using calm_run_two_selected(3) [OF that] step_Click_locked by blast
  then show ?thesis
    using checkMatch_returns [of g] checkMatch_selection [of g] run_task_selection [of _ g]
    by blast
qed

theorem selection_empty_after_resolution_witness:
  "2 \<le> length (selectedCards (run started [Click 0, Click 1])) \<and>
   (\<exists>g'. checkMatch (run started [Click 0, Click 1]) = Returns g' \<and> selectedCards g' = []) \<and>
   (\<exists>g'. run_task Tick (run started [Click 0]) = Returns g' \<and>
         selectedCards g' = selectedCards (run started [Click 0])) \<and>
   calm (new_MemoryGame ''2x2'' 16) [Start ''2x2'' in_order, Click 0, Click 1, Timer] \<and>
   0 < awaiting Unlock (run (new_MemoryGame ''2x2'' 16) [Start ''2x2'' in_order, Click 0, Click 1, Timer]) \<and>
   selectedCards (run (new_MemoryGame ''2x2'' 16) [Start ''2x2'' in_order, Click 0, Click 1, Timer]) = []"
proof -
  have a: "2 \<le> length (selectedCards (run started [Click 0, Click 1]))"
    using second_flip by (simp add: Let_def)
  have b: "calm (new_MemoryGame ''2x2'' 16) [Start ''2x2'' in_order, Click 0, Click 1, Timer]"
    by code_simp
  have c: "0 < awaiting Unlock (run (new_MemoryGame ''2x2'' 16) [Start ''2x2'' in_order, Click 0, Click 1, Timer])"
    by code_simp
  have d: "\<exists>g'. checkMatch (run started [Click 0, Click 1]) = Returns g' \<and> selectedCards g' = []"
    using a selection_empty_after_resolution [of "run started [Click 0, Click 1]"] by blast
  have e: "selectedCards (run (new_MemoryGame ''2x2'' 16) [Start ''2x2'' in_order, Click 0, Click 1, Timer]) = []"
    using b c selection_empty_after_resolution
      [of _ "''2x2''" 16 "[Start ''2x2'' in_order, Click 0, Click 1, Timer]"]
    by blast
  have f: "Tick \<noteq> CheckMatch" by simp
  obtain g' where g': "run_task Tick (run started [Click 0]) = Returns g'"
    by simp
  then have "selectedCards g' = selectedCards (run started [Click 0])"
    using f selection_empty_after_resolution [of "run started [Click 0]"] by blast
  then have g: "\<exists>g'. run_task Tick (run started [Click 0]) = Returns g' \<and>
         selectedCards g' = selectedCards (run started [Click 0])"
    using g' by blast
  show ?thesis using a b c d e g by blast
qed

subsection \<open>C10: the level lookup\<close>



text \<open>
  What the hypothesis keeps out: asked for \<open>constructor\<close>, the lookup finds the member the
  table inherits, and \<open>createGameBoard\<close> cannot take it apart.
\<close>

lemma getDimensions_inherited_member:
  "getDimensions ''constructor'' = Inherited ''constructor'' \<and>
   uncaught (step (new_MemoryGame ''2x2'' 16) (Start ''constructor'' in_order)) = [TypeError]"
  by code_simp

subsection \<open>Further facts\<close>

text \<open>
  A game that starts: the cards of the board show, in order, the symbols \<open>shuffleCards\<close>
  returned for the product of the level's dimensions, none is flipped or matched, the
  selection is empty, the lock is open, and turns and seconds are 0. The state of the
  engine stays what it was.
\<close>

theorem startGame_board:
  assumes "startGame sh g = Returns g'"
  shows "\<exists>r c. getDimensions (levelSelect g) = Dims r c \<and>
           map (\<lambda>a. face (store g' ! a)) (gameBoard g') =
             map symbol (shuffleCards sh (r * c) (symbols g)) \<and>
           list_all (\<lambda>a. \<not> flipped (store g' ! a) \<and> \<not> matched (store g' ! a)) (gameBoard g') \<and>
           selectedCards g' = [] \<and> allowClick g' \<and> turns g' = 0 \<and> seconds g' = 0 \<and>
           gameState g' = gameState g"
proof -
  let ?g1 = "g\<lparr>message_shown := False, selectedCards := [], allowClick := True, turns := 0\<rparr>"
  let ?new = "\<lambda>c. \<lparr>face = symbol c, flipped = False, matched = False, shake_horizontal = False\<rparr>"
  obtain g2 where g2: "createGameBoard sh ?g1 = Returns g2" and g': "g' = startTimer g2"
    using assms by (auto simp: startGame_def Let_def split: outcome.splits)
  obtain r c where dims: "getDimensions (levelSelect g) = Dims r c"
    and fold: "g2 = foldl (\<lambda>s c. createCard c s) (?g1\<lparr>gameBoard := []\<rparr>)
                 (shuffleCards sh (r * c) (symbols g))"
    using g2 by (auto simp: createGameBoard_def Let_def split: jsvalue.splits)
  let ?cs = "shuffleCards sh (r * c) (symbols g)"
  have st: "store g2 = store g @ map ?new ?cs"
    and gb: "gameBoard g2 = [length (store g) ..< length (store g) + length (map ?new ?cs)]"
    using createCard_fold_store [of "?g1\<lparr>gameBoard := []\<rparr>" ?cs] by (simp_all add: fold)
  have cards: "map (\<lambda>a. store g2 ! a) (gameBoard g2) = map ?new ?cs"
    unfolding st gb by (rule new_cards_in_order)
  have "map (\<lambda>a. face (store g2 ! a)) (gameBoard g2) = map face (map (\<lambda>a. store g2 ! a) (gameBoard g2))"
    by simp
  also have "\<dots> = map symbol ?cs"
    unfolding cards by simp
  finally have faces: "map (\<lambda>a. face (store g2 ! a)) (gameBoard g2) = map symbol ?cs" .
  have "list_all (\<lambda>e. \<not> flipped e \<and> \<not> matched e) (map (\<lambda>a. store g2 ! a) (gameBoard g2))"
    unfolding cards by (simp add: list_all_iff)
  then have down: "list_all (\<lambda>a. \<not> flipped (store g2 ! a) \<and> \<not> matched (store g2 ! a)) (gameBoard g2)"
    by (simp add: list_all_iff)
  have rest: "selectedCards g2 = [] \<and> allowClick g2 \<and> turns g2 = 0 \<and> gameState g2 = gameState g"
  proof -
    have "selectedCards (foldl (\<lambda>s c. createCard c s) h cs) = selectedCards h \<and>
          allowClick (foldl (\<lambda>s c. createCard c s) h cs) = allowClick h \<and>
          turns (foldl (\<lambda>s c. createCard c s) h cs) = turns h \<and>
          gameState (foldl (\<lambda>s c. createCard c s) h cs) = gameState h" for h cs
      by (induction cs arbitrary: h) (simp_all add: createCard_def)
    then show ?thesis by (simp add: fold)
  qed
  show ?thesis
    using dims faces down rest by (auto simp: g' startTimer_fields)
qed

theorem startGame_board_witness:
  "startGame in_order (new_MemoryGame ''4x3'' 16) = Returns (step (new_MemoryGame ''4x3'' 16) (Start ''4x3'' in_order)) \<and>
   (\<exists>r c. getDimensions ''4x3'' = Dims r c \<and>
      map (\<lambda>a. face (store (step (new_MemoryGame ''4x3'' 16) (Start ''4x3'' in_order)) ! a))
          (gameBoard (step (new_MemoryGame ''4x3'' 16) (Start ''4x3'' in_order))) =
        map symbol (shuffleCards in_order (r * c) builtin_symbols))"
proof -
  obtain g' where g': "startGame in_order (new_MemoryGame ''4x3'' 16) = Returns g'"
    by (simp add: startGame_def createGameBoard_def getDimensions_def dimensions_def Let_def
        new_MemoryGame_def)
  have lv: "levelSelect (new_MemoryGame ''4x3'' 16) = ''4x3''"
    and sy: "symbols (new_MemoryGame ''4x3'' 16) = builtin_symbols"
    by (simp_all add: new_MemoryGame_def)
  have st: "step (new_MemoryGame ''4x3'' 16) (Start ''4x3'' in_order) = g'"
    using g' by (simp add: settle_def new_MemoryGame_def)
  show ?thesis
    using startGame_board [OF g'] g' unfolding st lv sy by blast
qed

end
